theory Spec2Isabelle
  imports Main
begin

section \<open>Constants of the game\<close>

text \<open>The module-level constants of the source, with their values.\<close>

definition WIDTH :: int where "WIDTH = 640"
definition HEIGHT :: int where "HEIGHT = 480"
definition PADDLE_WIDTH :: int where "PADDLE_WIDTH = 10"
definition PADDLE_HEIGHT :: int where "PADDLE_HEIGHT = 60"
definition BALL_SIZE :: int where "BALL_SIZE = 10"
definition PADDLE_SPEED :: int where "PADDLE_SPEED = 3"
definition BALL_SPEED :: int where "BALL_SPEED = 4"

section \<open>Rectangles\<close>

text \<open>
  The paddles and the ball are \<^verbatim>\<open>pygame.Rect\<close> objects: four integers, the
  top-left corner and the size. The library is not part of the repository; the
  attributes the game reads and writes are modelled after the library's own
  arithmetic: \<^verbatim>\<open>top = y\<close>, \<^verbatim>\<open>bottom = y + h\<close>, \<^verbatim>\<open>left = x\<close>,
  \<^verbatim>\<open>right = x + w\<close>, \<^verbatim>\<open>centerx = x + w / 2\<close>, \<^verbatim>\<open>centery = y + h / 2\<close>,
  where \<^verbatim>\<open>/\<close> is the integer division of C, which rounds toward zero.
  Coordinates are mathematical integers: in every state the game reaches they
  stay far inside the range of a C \<^verbatim>\<open>int\<close>.
\<close>

record rect =
  rect_x :: int
  rect_y :: int
  rect_w :: int
  rect_h :: int

definition Rect :: "int \<Rightarrow> int \<Rightarrow> int \<Rightarrow> int \<Rightarrow> rect" where
  "Rect a b c d = \<lparr>rect_x = a, rect_y = b, rect_w = c, rect_h = d\<rparr>"

definition half :: "int \<Rightarrow> int" where
  "half n = (if 0 \<le> n then n div 2 else - ((- n) div 2))"

definition rect_top :: "rect \<Rightarrow> int" where
  "rect_top r = rect_y r"

definition rect_bottom :: "rect \<Rightarrow> int" where
  "rect_bottom r = rect_y r + rect_h r"

definition rect_left :: "rect \<Rightarrow> int" where
  "rect_left r = rect_x r"

definition rect_right :: "rect \<Rightarrow> int" where
  "rect_right r = rect_x r + rect_w r"

definition rect_centerx :: "rect \<Rightarrow> int" where
  "rect_centerx r = rect_x r + half (rect_w r)"

definition rect_centery :: "rect \<Rightarrow> int" where
  "rect_centery r = rect_y r + half (rect_h r)"

definition rect_center :: "rect \<Rightarrow> int \<times> int" where
  "rect_center r = (rect_centerx r, rect_centery r)"

text \<open>The assignment \<^verbatim>\<open>r.center = (cx, cy)\<close> moves the rectangle, keeping its size.\<close>

definition set_center :: "int \<times> int \<Rightarrow> rect \<Rightarrow> rect" where
  "set_center c r =
     r\<lparr>rect_x := fst c - half (rect_w r), rect_y := snd c - half (rect_h r)\<rparr>"

text \<open>The assignments \<^verbatim>\<open>r.x += d\<close> and \<^verbatim>\<open>r.y += d\<close>.\<close>

definition move_x :: "int \<Rightarrow> rect \<Rightarrow> rect" where
  "move_x d r = r\<lparr>rect_x := rect_x r + d\<rparr>"

definition move_y :: "int \<Rightarrow> rect \<Rightarrow> rect" where
  "move_y d r = r\<lparr>rect_y := rect_y r + d\<rparr>"

text \<open>
  \<^verbatim>\<open>a.colliderect(b)\<close>: a rectangle with a zero side collides with nothing;
  otherwise the two must overlap strictly on both axes (touching edges do not
  collide). The library normalises negative sizes with min and max.
\<close>

definition colliderect :: "rect \<Rightarrow> rect \<Rightarrow> bool" where
  "colliderect a b =
     (if rect_w a = 0 \<or> rect_h a = 0 \<or> rect_w b = 0 \<or> rect_h b = 0 then False
      else min (rect_x a) (rect_x a + rect_w a) < max (rect_x b) (rect_x b + rect_w b)
         \<and> min (rect_y a) (rect_y a + rect_h a) < max (rect_y b) (rect_y b + rect_h b)
         \<and> max (rect_x a) (rect_x a + rect_w a) > min (rect_x b) (rect_x b + rect_w b)
         \<and> max (rect_y a) (rect_y a + rect_h a) > min (rect_y b) (rect_y b + rect_h b))"

section \<open>The game state\<close>

text \<open>
  The attributes of class \<^verbatim>\<open>Game\<close>. The velocity \<^verbatim>\<open>ball_speed\<close> is a list of
  exactly two integers throughout the source, so it is a pair here.
\<close>

record game =
  paddle1 :: rect
  paddle2 :: rect
  ball :: rect
  ball_speed :: "int \<times> int"
  score1 :: int
  score2 :: int
  ai_active :: bool
  last_update :: int
  insert_coin :: bool
  game_over :: bool

text \<open>
  What one call of \<^verbatim>\<open>update\<close> reads from outside the object: the clock
  (\<^verbatim>\<open>pygame.time.get_ticks()\<close>, an argument of \<open>update\<close> below) and the four
  keys it looks up in \<^verbatim>\<open>pygame.key.get_pressed()\<close>.
\<close>

record pressed =
  K_w :: bool
  K_s :: bool
  K_UP :: bool
  K_DOWN :: bool

text \<open>The three generated tones; \<open>update\<close> returns the ones it played, in order.\<close>

datatype sound = boop_sound | beep_sound | score_sound

subsection \<open>\<^verbatim>\<open>Game.reset\<close> and \<^verbatim>\<open>Game.__init__\<close>\<close>

definition reset :: "game \<Rightarrow> game" where
  "reset s = s\<lparr>
     paddle1 := Rect 50 (HEIGHT div 2 - PADDLE_HEIGHT div 2) PADDLE_WIDTH PADDLE_HEIGHT,
     paddle2 := Rect (WIDTH - 50 - PADDLE_WIDTH) (HEIGHT div 2 - PADDLE_HEIGHT div 2)
                  PADDLE_WIDTH PADDLE_HEIGHT,
     ball := Rect (WIDTH div 2) (HEIGHT div 2) BALL_SIZE BALL_SIZE,
     ball_speed := (BALL_SPEED, BALL_SPEED),
     score1 := 0,
     score2 := 0,
     insert_coin := False,
     game_over := False\<rparr>"

text \<open>
  The constructor calls \<^verbatim>\<open>reset\<close> on the new object and then sets the four
  flags; between them the two assign every attribute. The argument is the
  clock value the constructor reads.
\<close>

definition Game_init :: "int \<Rightarrow> game" where
  "Game_init t =
     (reset \<lparr>paddle1 = Rect 0 0 0 0, paddle2 = Rect 0 0 0 0, ball = Rect 0 0 0 0,
             ball_speed = (0, 0), score1 = 0, score2 = 0, ai_active = False,
             last_update = 0, insert_coin = False, game_over = False\<rparr>)
       \<lparr>ai_active := True, last_update := t, insert_coin := True, game_over := False\<rparr>"

subsection \<open>\<^verbatim>\<open>Game.update\<close>, phase by phase\<close>

text \<open>Paddle one follows the keys W and S; the second test sees the first move.\<close>

definition paddle1_keys :: "pressed \<Rightarrow> game \<Rightarrow> game" where
  "paddle1_keys k s =
     (let s1 = (if K_w k \<and> rect_top (paddle1 s) > 0
                then s\<lparr>paddle1 := move_y (- PADDLE_SPEED) (paddle1 s)\<rparr> else s);
          s2 = (if K_s k \<and> rect_bottom (paddle1 s1) < HEIGHT
                then s1\<lparr>paddle1 := move_y PADDLE_SPEED (paddle1 s1)\<rparr> else s1)
      in s2)"

definition paddle2_keys :: "pressed \<Rightarrow> game \<Rightarrow> game" where
  "paddle2_keys k s =
     (let s1 = (if K_UP k \<and> rect_top (paddle2 s) > 0
                then s\<lparr>paddle2 := move_y (- PADDLE_SPEED) (paddle2 s)\<rparr> else s);
          s2 = (if K_DOWN k \<and> rect_bottom (paddle2 s1) < HEIGHT
                then s1\<lparr>paddle2 := move_y PADDLE_SPEED (paddle2 s1)\<rparr> else s1)
      in s2)"

text \<open>The tracking opponent: down first, then up, each with its own test.\<close>

definition paddle2_ai :: "game \<Rightarrow> game" where
  "paddle2_ai s =
     (let s1 = (if rect_centery (ball s) > rect_centery (paddle2 s) + 30
                   \<and> rect_bottom (paddle2 s) < HEIGHT
                then s\<lparr>paddle2 := move_y PADDLE_SPEED (paddle2 s)\<rparr> else s);
          s2 = (if rect_centery (ball s1) < rect_centery (paddle2 s1) - 30
                   \<and> rect_top (paddle2 s1) > 0
                then s1\<lparr>paddle2 := move_y (- PADDLE_SPEED) (paddle2 s1)\<rparr> else s1)
      in s2)"

definition move_paddles :: "pressed \<Rightarrow> game \<Rightarrow> game" where
  "move_paddles k s =
     (let s1 = paddle1_keys k s
      in if \<not> ai_active s1 then paddle2_keys k s1 else paddle2_ai s1)"

definition move_ball :: "game \<Rightarrow> game" where
  "move_ball s =
     s\<lparr>ball := move_y (snd (ball_speed s)) (move_x (fst (ball_speed s)) (ball s))\<rparr>"

definition wall_collision :: "game \<Rightarrow> game \<times> sound list" where
  "wall_collision s =
     (if rect_top (ball s) \<le> 0 \<or> rect_bottom (ball s) \<ge> HEIGHT
      then (s\<lparr>ball_speed := (fst (ball_speed s), - snd (ball_speed s))\<rparr>, [boop_sound])
      else (s, []))"

definition paddle_collision :: "game \<Rightarrow> game \<times> sound list" where
  "paddle_collision s =
     (if colliderect (ball s) (paddle1 s) \<or> colliderect (ball s) (paddle2 s)
      then (s\<lparr>ball_speed := (- fst (ball_speed s), snd (ball_speed s))\<rparr>, [beep_sound])
      else (s, []))"

text \<open>
  Scoring on the left, then on the right. The second test reads the ball as
  the first one left it.
\<close>

definition score_left :: "game \<Rightarrow> game \<times> sound list" where
  "score_left s =
     (if rect_left (ball s) \<le> 0
      then (s\<lparr>score2 := score2 s + 1,
              ball := set_center (WIDTH div 2, HEIGHT div 2) (ball s),
              ball_speed := (BALL_SPEED, BALL_SPEED)\<rparr>, [score_sound])
      else (s, []))"

definition score_right :: "game \<Rightarrow> game \<times> sound list" where
  "score_right s =
     (if rect_right (ball s) \<ge> WIDTH
      then (s\<lparr>score1 := score1 s + 1,
              ball := set_center (WIDTH div 2, HEIGHT div 2) (ball s),
              ball_speed := (- BALL_SPEED, BALL_SPEED)\<rparr>, [score_sound])
      else (s, []))"

definition scoring :: "game \<Rightarrow> game \<times> sound list" where
  "scoring s =
     (let (s1, a) = score_left s; (s2, b) = score_right s1 in (s2, a @ b))"

definition win_condition :: "game \<Rightarrow> game" where
  "win_condition s =
     (if score1 s \<ge> 5 \<or> score2 s \<ge> 5 then s\<lparr>game_over := True\<rparr> else s)"

text \<open>
  The state once the paddles and the ball have moved, before any collision is
  looked at: what the collision and scoring tests of the tick read.
\<close>

definition advance :: "int \<Rightarrow> pressed \<Rightarrow> game \<Rightarrow> game" where
  "advance t k s = move_ball (move_paddles k (s\<lparr>last_update := t\<rparr>))"

definition update :: "int \<Rightarrow> pressed \<Rightarrow> game \<Rightarrow> game \<times> sound list" where
  "update t k s =
     (if game_over s then (s, [])
      else if t - last_update s < 32 then (s, [])
      else
        (let s2 = advance t k s;
             (s3, a) = wall_collision s2;
             (s4, b) = paddle_collision s3;
             (s5, c) = scoring s4
         in (win_condition s5, a @ b @ c)))"

text \<open>A call of \<open>update\<close> is effective when it passes both early returns.\<close>

definition effective :: "int \<Rightarrow> game \<Rightarrow> bool" where
  "effective t s = (\<not> game_over s \<and> \<not> t - last_update s < 32)"

subsection \<open>The event loop of \<^verbatim>\<open>main\<close>\<close>

text \<open>
  The keys the loop tests on a key-down event, and the events it tells apart.
  The loop handles every pending event, also after one of them has cleared
  \<^verbatim>\<open>running\<close>, then calls \<^verbatim>\<open>update\<close> and \<^verbatim>\<open>draw\<close>; drawing reads the state only.
\<close>

datatype key = K_ESCAPE | K_r | K_1 | K_2 | K_y | K_n | K_other

datatype event = QUIT | KEYDOWN key | OTHER

fun handle_event :: "event \<Rightarrow> game \<times> bool \<Rightarrow> game \<times> bool" where
  "handle_event QUIT (g, running) = (g, False)"
| "handle_event (KEYDOWN c) (g, running) =
     (let r1 = (if c = K_ESCAPE then False else running);
          g1 = (if c = K_r then reset g else g);
          g2 = (if c = K_2 then g1\<lparr>ai_active := False\<rparr> else g1);
          g3 = (if c = K_1 then g2\<lparr>ai_active := True\<rparr> else g2);
          g4 = (if game_over g3 \<and> c = K_y then reset g3 else g3);
          r2 = (if game_over g3 \<and> c = K_n then False else r1)
      in (g4\<lparr>insert_coin := False\<rparr>, r2))"
| "handle_event OTHER (g, running) = (g, running)"

text \<open>One iteration of the loop: the pending events in order, then the update.\<close>

definition frame :: "event list \<Rightarrow> int \<Rightarrow> pressed \<Rightarrow> game \<times> bool \<Rightarrow> game \<times> bool" where
  "frame es t k st =
     (let st1 = fold handle_event es st in (fst (update t k (fst st1)), snd st1))"

text \<open>
  The states of a session: the constructed game, and whatever the event
  handling and the update make of a state already reached, in any order and
  with any clock value and keys.
\<close>

inductive reachable :: "game \<Rightarrow> bool" where
  reach_init: "reachable (Game_init t)"
| reach_event: "reachable s \<Longrightarrow> reachable (fst (handle_event e (s, r)))"
| reach_update: "reachable s \<Longrightarrow> reachable (fst (update t k s))"

text \<open>
  The loop itself, run on the inputs of its successive iterations (the pending
  events, the clock value and the keys held): \<^verbatim>\<open>while running\<close> tests the flag
  before each iteration.
\<close>

fun main_loop :: "(event list \<times> int \<times> pressed) list \<Rightarrow> game \<times> bool \<Rightarrow> game \<times> bool" where
  "main_loop [] st = st"
| "main_loop ((es, t, k) # rest) (g, running) =
     (if running then main_loop rest (frame es t k (g, running)) else (g, running))"

section \<open>Predicates of the specification\<close>

text \<open>A rectangle lies within the vertical bounds of the field.\<close>

definition in_field :: "rect \<Rightarrow> bool" where
  "in_field r = (0 \<le> rect_top r \<and> rect_bottom r \<le> HEIGHT)"

text \<open>
  A paddle of the height the game gives it, whose top is a whole number of
  paddle steps from the top of the field.
\<close>

definition on_grid :: "rect \<Rightarrow> bool" where
  "on_grid r = (rect_h r = PADDLE_HEIGHT \<and> PADDLE_SPEED dvd rect_y r)"

text \<open>The ball has the size the game gives it.\<close>

definition ball_sized :: "game \<Rightarrow> bool" where
  "ball_sized s = (rect_w (ball s) = BALL_SIZE \<and> rect_h (ball s) = BALL_SIZE)"

text \<open>The paddles stand in their columns: paddle one on the left, paddle two on the right.\<close>

definition paddles_placed :: "game \<Rightarrow> bool" where
  "paddles_placed s =
     (rect_x (paddle1 s) = 50 \<and> rect_w (paddle1 s) = PADDLE_WIDTH
      \<and> rect_x (paddle2 s) = WIDTH - 50 - PADDLE_WIDTH \<and> rect_w (paddle2 s) = PADDLE_WIDTH)"

text \<open>
  The ball moves horizontally toward a paddle: the horizontal velocity has the
  sign of the paddle's offset from the ball.
\<close>

definition heads_toward :: "game \<Rightarrow> rect \<Rightarrow> bool" where
  "heads_toward s p = (0 < fst (ball_speed s) * (rect_centerx p - rect_centerx (ball s)))"

text \<open>The ball overlaps one of the paddles, as the collision test of \<open>update\<close> reads it.\<close>

definition hits_paddle :: "game \<Rightarrow> bool" where
  "hits_paddle s = (colliderect (ball s) (paddle1 s) \<or> colliderect (ball s) (paddle2 s))"

text \<open>The ball's vertical extent reaches the top or the bottom of the field.\<close>

definition hits_wall :: "game \<Rightarrow> bool" where
  "hits_wall s = (rect_top (ball s) \<le> 0 \<or> rect_bottom (ball s) \<ge> HEIGHT)"

text \<open>Both components of a velocity have the magnitude of the ball's speed.\<close>

definition unit_speed :: "int \<times> int \<Rightarrow> bool" where
  "unit_speed v = (\<bar>fst v\<bar> = BALL_SPEED \<and> \<bar>snd v\<bar> = BALL_SPEED)"

section \<open>Concrete sessions\<close>

text \<open>
  A session in which nobody touches the keyboard: every iteration finds no
  event and no key held, and the clock has advanced by 32 ms, so that every
  update is effective. \<open>idle n t\<close> are the inputs of \<open>n\<close> such iterations after
  clock value \<open>t\<close>.
\<close>

definition nokeys :: pressed where
  "nokeys = \<lparr>K_w = False, K_s = False, K_UP = False, K_DOWN = False\<rparr>"

fun idle :: "nat \<Rightarrow> int \<Rightarrow> (event list \<times> int \<times> pressed) list" where
  "idle 0 t = []"
| "idle (Suc n) t = ([], t + 32, nokeys) # idle n (t + 32)"

text \<open>
  States of the session that starts from \<open>Game_init 0\<close>, named after what the
  next update does to them: after 6, 7, 57, 65, 95, 174, 904 and 905 iterations.
\<close>

definition in_deadband_state :: game where
  "in_deadband_state =
     \<lparr>paddle1 = Rect 50 210 10 60, paddle2 = Rect 580 210 10 60, ball = Rect 344 264 10 10,
      ball_speed = (4, 4), score1 = 0, score2 = 0, ai_active = True, last_update = 192,
      insert_coin = True, game_over = False\<rparr>"

definition tracking_state :: game where
  "tracking_state =
     \<lparr>paddle1 = Rect 50 210 10 60, paddle2 = Rect 580 210 10 60, ball = Rect 348 268 10 10,
      ball_speed = (4, 4), score1 = 0, score2 = 0, ai_active = True, last_update = 224,
      insert_coin = True, game_over = False\<rparr>"

definition before_wall_state :: game where
  "before_wall_state =
     \<lparr>paddle1 = Rect 50 210 10 60, paddle2 = Rect 580 360 10 60, ball = Rect 548 468 10 10,
      ball_speed = (4, 4), score1 = 0, score2 = 0, ai_active = True, last_update = 1824,
      insert_coin = True, game_over = False\<rparr>"

definition before_paddle_state :: game where
  "before_paddle_state =
     \<lparr>paddle1 = Rect 50 210 10 60, paddle2 = Rect 580 384 10 60, ball = Rect 580 444 10 10,
      ball_speed = (4, - 4), score1 = 0, score2 = 0, ai_active = True, last_update = 2080,
      insert_coin = True, game_over = False\<rparr>"

definition before_right_score_state :: game where
  "before_right_score_state =
     \<lparr>paddle1 = Rect 50 210 10 60, paddle2 = Rect 580 345 10 60, ball = Rect 628 324 10 10,
      ball_speed = (4, - 4), score1 = 0, score2 = 0, ai_active = True, last_update = 3040,
      insert_coin = True, game_over = False\<rparr>"

definition before_left_score_state :: game where
  "before_left_score_state =
     \<lparr>paddle1 = Rect 50 210 10 60, paddle2 = Rect 580 399 10 60, ball = Rect 3 395 10 10,
      ball_speed = (- 4, - 4), score1 = 1, score2 = 0, ai_active = True, last_update = 5568,
      insert_coin = True, game_over = False\<rparr>"

definition match_point_state :: game where
  "match_point_state =
     \<lparr>paddle1 = Rect 50 210 10 60, paddle2 = Rect 580 396 10 60, ball = Rect 3 395 10 10,
      ball_speed = (- 4, - 4), score1 = 3, score2 = 4, ai_active = True, last_update = 28928,
      insert_coin = True, game_over = False\<rparr>"

definition concluded_state :: game where
  "concluded_state =
     \<lparr>paddle1 = Rect 50 210 10 60, paddle2 = Rect 580 396 10 60, ball = Rect 315 235 10 10,
      ball_speed = (4, 4), score1 = 3, score2 = 5, ai_active = True, last_update = 28960,
      insert_coin = True, game_over = True\<rparr>"

text \<open>
  A session in which the keys W and UP are held from the start and no event
  arrives: \<open>held k n t\<close> are the inputs of \<open>n\<close> iterations with the keys \<open>k\<close>
  held, after clock value \<open>t\<close>. After 70 iterations paddle one has reached
  the top of the field; paddle two, under the AI, has followed the ball.
\<close>

definition up_keys :: pressed where
  "up_keys = \<lparr>K_w = True, K_s = False, K_UP = True, K_DOWN = False\<rparr>"

fun held :: "pressed \<Rightarrow> nat \<Rightarrow> int \<Rightarrow> (event list \<times> int \<times> pressed) list" where
  "held k 0 t = []"
| "held k (Suc n) t = ([], t + 32, k) # held k n (t + 32)"

definition paddle_at_top_state :: game where
  "paddle_at_top_state =
     \<lparr>paddle1 = Rect 50 0 10 60, paddle2 = Rect 580 387 10 60, ball = Rect 584 424 10 10,
      ball_speed = (- 4, - 4), score1 = 0, score2 = 0, ai_active = True, last_update = 2240,
      insert_coin = True, game_over = False\<rparr>"

text \<open>Every key of the game held at once.\<close>

definition all_keys :: pressed where
  "all_keys = \<lparr>K_w = True, K_s = True, K_UP = True, K_DOWN = True\<rparr>"

section \<open>How each phase of the update changes the state\<close>

lemmas consts_defs =
  WIDTH_def HEIGHT_def PADDLE_WIDTH_def PADDLE_HEIGHT_def BALL_SIZE_def
  PADDLE_SPEED_def BALL_SPEED_def

lemmas rect_defs =
  Rect_def rect_top_def rect_bottom_def rect_left_def rect_right_def
  rect_centerx_def rect_centery_def rect_center_def set_center_def move_x_def move_y_def half_def

lemma paddle1_keys_frame [simp]:
  "paddle2 (paddle1_keys k s) = paddle2 s"
  "ball (paddle1_keys k s) = ball s"
  "ball_speed (paddle1_keys k s) = ball_speed s"
  "score1 (paddle1_keys k s) = score1 s"
  "score2 (paddle1_keys k s) = score2 s"
  "ai_active (paddle1_keys k s) = ai_active s"
  "game_over (paddle1_keys k s) = game_over s"
  by (simp_all add: paddle1_keys_def Let_def)

lemma paddle2_keys_frame [simp]:
  "paddle1 (paddle2_keys k s) = paddle1 s"
  "ball (paddle2_keys k s) = ball s"
  "ball_speed (paddle2_keys k s) = ball_speed s"
  "score1 (paddle2_keys k s) = score1 s"
  "score2 (paddle2_keys k s) = score2 s"
  "game_over (paddle2_keys k s) = game_over s"
  by (simp_all add: paddle2_keys_def Let_def)

lemma paddle2_ai_frame [simp]:
  "paddle1 (paddle2_ai s) = paddle1 s"
  "ball (paddle2_ai s) = ball s"
  "ball_speed (paddle2_ai s) = ball_speed s"
  "score1 (paddle2_ai s) = score1 s"
  "score2 (paddle2_ai s) = score2 s"
  "game_over (paddle2_ai s) = game_over s"
  by (simp_all add: paddle2_ai_def Let_def)

lemma move_paddles_frame [simp]:
  "ball (move_paddles k s) = ball s"
  "ball_speed (move_paddles k s) = ball_speed s"
  "score1 (move_paddles k s) = score1 s"
  "score2 (move_paddles k s) = score2 s"
  "game_over (move_paddles k s) = game_over s"
  by (simp_all add: move_paddles_def Let_def)

lemma move_ball_frame [simp]:
  "paddle1 (move_ball s) = paddle1 s"
  "paddle2 (move_ball s) = paddle2 s"
  "ball_speed (move_ball s) = ball_speed s"
  "score1 (move_ball s) = score1 s"
  "score2 (move_ball s) = score2 s"
  "game_over (move_ball s) = game_over s"
  by (simp_all add: move_ball_def)

lemma advance_frame [simp]:
  "ball_speed (advance t k s) = ball_speed s"
  "score1 (advance t k s) = score1 s"
  "score2 (advance t k s) = score2 s"
  "game_over (advance t k s) = game_over s"
  by (simp_all add: advance_def)

lemma wall_collision_frame [simp]:
  "paddle1 (fst (wall_collision s)) = paddle1 s"
  "paddle2 (fst (wall_collision s)) = paddle2 s"
  "ball (fst (wall_collision s)) = ball s"
  "score1 (fst (wall_collision s)) = score1 s"
  "score2 (fst (wall_collision s)) = score2 s"
  "game_over (fst (wall_collision s)) = game_over s"
  "fst (ball_speed (fst (wall_collision s))) = fst (ball_speed s)"
  by (simp_all add: wall_collision_def)

lemma paddle_collision_frame [simp]:
  "paddle1 (fst (paddle_collision s)) = paddle1 s"
  "paddle2 (fst (paddle_collision s)) = paddle2 s"
  "ball (fst (paddle_collision s)) = ball s"
  "score1 (fst (paddle_collision s)) = score1 s"
  "score2 (fst (paddle_collision s)) = score2 s"
  "game_over (fst (paddle_collision s)) = game_over s"
  "snd (ball_speed (fst (paddle_collision s))) = snd (ball_speed s)"
  by (simp_all add: paddle_collision_def)

lemma scoring_frame [simp]:
  "paddle1 (fst (scoring s)) = paddle1 s"
  "paddle2 (fst (scoring s)) = paddle2 s"
  "game_over (fst (scoring s)) = game_over s"
  by (simp_all add: scoring_def score_left_def score_right_def Let_def split: prod.splits)

lemma win_condition_frame [simp]:
  "paddle1 (win_condition s) = paddle1 s"
  "paddle2 (win_condition s) = paddle2 s"
  "ball (win_condition s) = ball s"
  "ball_speed (win_condition s) = ball_speed s"
  "score1 (win_condition s) = score1 s"
  "score2 (win_condition s) = score2 s"
  by (simp_all add: win_condition_def)

lemma update_effective:
  "effective t s \<Longrightarrow>
     fst (update t k s) =
       win_condition (fst (scoring (fst (paddle_collision (fst (wall_collision (advance t k s)))))))"
  by (simp add: update_def effective_def Let_def split: prod.splits)

lemma update_not_effective:
  "\<not> effective t s \<Longrightarrow> update t k s = (s, [])"
  by (auto simp add: update_def effective_def)

text \<open>The speed with which the ball enters the scoring tests.\<close>

lemma collisions_speed:
  "ball_speed (fst (paddle_collision (fst (wall_collision s)))) =
     ((if hits_paddle s then - fst (ball_speed s) else fst (ball_speed s)),
      (if hits_wall s then - snd (ball_speed s) else snd (ball_speed s)))"
  by (simp add: paddle_collision_def wall_collision_def hits_paddle_def hits_wall_def)

text \<open>Scoring, for a ball of the game's size: at most one of the two tests fires.\<close>

lemma scoring_sized:
  assumes "ball_sized s"
  shows "fst (scoring s) =
     (if rect_left (ball s) \<le> 0
      then s\<lparr>score2 := score2 s + 1,
              ball := set_center (WIDTH div 2, HEIGHT div 2) (ball s),
              ball_speed := (BALL_SPEED, BALL_SPEED)\<rparr>
      else if rect_right (ball s) \<ge> WIDTH
      then s\<lparr>score1 := score1 s + 1,
              ball := set_center (WIDTH div 2, HEIGHT div 2) (ball s),
              ball_speed := (- BALL_SPEED, BALL_SPEED)\<rparr>
      else s)"
  using assms
  by (simp add: scoring_def score_left_def score_right_def ball_sized_def
      rect_defs consts_defs)

section \<open>Reset, construction and the event handler\<close>

lemma reset_fields [simp]:
  "paddle1 (reset s) = Rect 50 210 10 60"
  "paddle2 (reset s) = Rect 580 210 10 60"
  "ball (reset s) = Rect 320 240 10 10"
  "ball_speed (reset s) = (4, 4)"
  "score1 (reset s) = 0"
  "score2 (reset s) = 0"
  "game_over (reset s) = False"
  "insert_coin (reset s) = False"
  "ai_active (reset s) = ai_active s"
  "last_update (reset s) = last_update s"
  by (simp_all add: reset_def consts_defs)

lemma Game_init_fields [simp]:
  "paddle1 (Game_init t) = Rect 50 210 10 60"
  "paddle2 (Game_init t) = Rect 580 210 10 60"
  "ball (Game_init t) = Rect 320 240 10 10"
  "ball_speed (Game_init t) = (4, 4)"
  "score1 (Game_init t) = 0"
  "score2 (Game_init t) = 0"
  "game_over (Game_init t) = False"
  "ai_active (Game_init t) = True"
  "last_update (Game_init t) = t"
  by (simp_all add: Game_init_def)

text \<open>
  Whatever the event, the handler leaves the game as it was, clears or sets
  the two flags it owns, or resets it.
\<close>

lemma handle_event_shape:
  "fst (handle_event e (s, r)) = s
   \<or> fst (handle_event e (s, r)) = s\<lparr>ai_active := True, insert_coin := False\<rparr>
   \<or> fst (handle_event e (s, r)) = s\<lparr>ai_active := False, insert_coin := False\<rparr>
   \<or> fst (handle_event e (s, r)) = s\<lparr>insert_coin := False\<rparr>
   \<or> fst (handle_event e (s, r)) = reset s"
proof (cases e)
  case QUIT
  then show ?thesis by simp
next
  case OTHER
  then show ?thesis by simp
next
  case (KEYDOWN c)
  have idem: "(reset s)\<lparr>insert_coin := False\<rparr> = reset s"
    by (simp add: reset_def)
  show ?thesis
    using KEYDOWN idem by (cases c) (simp_all add: Let_def)
qed

text \<open>
  A property of the game that the two flags of the handler do not enter, and
  that a reset establishes, survives every event.
\<close>

lemma handle_event_keeps:
  assumes "P s"
    and "\<And>a i. P (s\<lparr>ai_active := a, insert_coin := i\<rparr>)"
    and "\<And>i. P (s\<lparr>insert_coin := i\<rparr>)"
    and "P (reset s)"
  shows "P (fst (handle_event e (s, r)))"
  using handle_event_shape [of e s r] assms by auto

section \<open>Sessions stay among the reachable states\<close>

lemma reachable_fold:
  "reachable g \<Longrightarrow> reachable (fst (fold handle_event es (g, r)))"
proof (induction es arbitrary: g r)
  case Nil
  then show ?case by simp
next
  case (Cons e es)
  obtain g' r' where step: "handle_event e (g, r) = (g', r')"
    by (cases "handle_event e (g, r)")
  from Cons.prems have "reachable (fst (handle_event e (g, r)))"
    by (rule reach_event)
  with step have "reachable g'" by simp
  then have "reachable (fst (fold handle_event es (g', r')))"
    by (rule Cons.IH)
  with step show ?case by simp
qed

lemma reachable_frame:
  "reachable g \<Longrightarrow> reachable (fst (frame es t k (g, r)))"
  by (simp add: frame_def Let_def reachable_fold reach_update)

lemma reachable_main_loop:
  "reachable g \<Longrightarrow> reachable (fst (main_loop ins (g, r)))"
proof (induction ins arbitrary: g r)
  case Nil
  then show ?case by simp
next
  case (Cons i ins)
  obtain es t k where i: "i = (es, t, k)"
    by (cases i)
  obtain g' r' where step: "frame es t k (g, r) = (g', r')"
    by (cases "frame es t k (g, r)")
  from Cons.prems have "reachable (fst (frame es t k (g, r)))"
    by (rule reachable_frame)
  with step have "reachable g'" by simp
  then have "reachable (fst (main_loop ins (g', r')))"
    by (rule Cons.IH)
  with i step Cons.prems show ?case by (cases r) simp_all
qed

section \<open>Invariants of the reachable states\<close>

subsection \<open>The ball keeps its size\<close>

lemma ball_sized_cong: "ball s = ball u \<Longrightarrow> ball_sized s = ball_sized u"
  by (simp add: ball_sized_def)

lemma ball_sized_advance: "ball_sized s \<Longrightarrow> ball_sized (advance t k s)"
  by (simp add: ball_sized_def advance_def move_ball_def move_x_def move_y_def)

lemma ball_sized_collisions:
  "ball_sized s \<Longrightarrow> ball_sized (fst (paddle_collision (fst (wall_collision s))))"
  by (simp add: ball_sized_def)

lemma ball_sized_update: "ball_sized s \<Longrightarrow> ball_sized (fst (update t k s))"
proof (cases "effective t s")
  case False
  assume "ball_sized s"
  with False show ?thesis by (simp add: update_not_effective)
next
  case True
  assume sized: "ball_sized s"
  then have mid: "ball_sized (fst (paddle_collision (fst (wall_collision (advance t k s)))))"
    by (intro ball_sized_collisions ball_sized_advance)
  have "ball_sized (fst (scoring (fst (paddle_collision (fst (wall_collision (advance t k s)))))))"
    using mid by (simp add: scoring_sized) (simp add: ball_sized_def set_center_def)
  then show ?thesis
    using True by (simp add: update_effective ball_sized_def)
qed

lemma reachable_ball_sized: "reachable s \<Longrightarrow> ball_sized s"
proof (induction rule: reachable.induct)
  case (reach_init t)
  show ?case by (simp add: ball_sized_def Rect_def consts_defs)
next
  case (reach_event s e r)
  then show ?case
    using handle_event_keeps [where P = ball_sized, of s e r]
    by (simp add: ball_sized_def Rect_def consts_defs)
next
  case (reach_update s t k)
  then show ?case by (simp add: ball_sized_update)
qed

subsection \<open>The paddles stay in their columns, on the grid and in the field\<close>

lemma step_up_keeps:
  "in_field r \<Longrightarrow> on_grid r \<Longrightarrow> 0 < rect_top r \<Longrightarrow>
     in_field (move_y (- PADDLE_SPEED) r) \<and> on_grid (move_y (- PADDLE_SPEED) r)"
  unfolding in_field_def on_grid_def rect_top_def rect_bottom_def move_y_def consts_defs
  by simp presburger

lemma step_down_keeps:
  "in_field r \<Longrightarrow> on_grid r \<Longrightarrow> rect_bottom r < HEIGHT \<Longrightarrow>
     in_field (move_y PADDLE_SPEED r) \<and> on_grid (move_y PADDLE_SPEED r)"
  unfolding in_field_def on_grid_def rect_top_def rect_bottom_def move_y_def consts_defs
  by simp presburger

lemma paddle1_keys_keeps:
  assumes "in_field (paddle1 s)" and "on_grid (paddle1 s)"
  shows "in_field (paddle1 (paddle1_keys k s)) \<and> on_grid (paddle1 (paddle1_keys k s))"
proof -
  define s1 where "s1 = (if K_w k \<and> rect_top (paddle1 s) > 0
      then s\<lparr>paddle1 := move_y (- PADDLE_SPEED) (paddle1 s)\<rparr> else s)"
  have one: "in_field (paddle1 s1) \<and> on_grid (paddle1 s1)"
    using assms step_up_keeps [of "paddle1 s"] by (simp add: s1_def)
  have "paddle1_keys k s = (if K_s k \<and> rect_bottom (paddle1 s1) < HEIGHT
      then s1\<lparr>paddle1 := move_y PADDLE_SPEED (paddle1 s1)\<rparr> else s1)"
    by (simp add: paddle1_keys_def s1_def Let_def)
  then show ?thesis
    using one step_down_keeps [of "paddle1 s1"] by simp
qed

lemma paddle2_keys_keeps:
  assumes "in_field (paddle2 s)" and "on_grid (paddle2 s)"
  shows "in_field (paddle2 (paddle2_keys k s)) \<and> on_grid (paddle2 (paddle2_keys k s))"
proof -
  define s1 where "s1 = (if K_UP k \<and> rect_top (paddle2 s) > 0
      then s\<lparr>paddle2 := move_y (- PADDLE_SPEED) (paddle2 s)\<rparr> else s)"
  have one: "in_field (paddle2 s1) \<and> on_grid (paddle2 s1)"
    using assms step_up_keeps [of "paddle2 s"] by (simp add: s1_def)
  have "paddle2_keys k s = (if K_DOWN k \<and> rect_bottom (paddle2 s1) < HEIGHT
      then s1\<lparr>paddle2 := move_y PADDLE_SPEED (paddle2 s1)\<rparr> else s1)"
    by (simp add: paddle2_keys_def s1_def Let_def)
  then show ?thesis
    using one step_down_keeps [of "paddle2 s1"] by simp
qed

lemma paddle2_ai_keeps:
  assumes "in_field (paddle2 s)" and "on_grid (paddle2 s)"
  shows "in_field (paddle2 (paddle2_ai s)) \<and> on_grid (paddle2 (paddle2_ai s))"
proof -
  define s1 where "s1 = (if rect_centery (ball s) > rect_centery (paddle2 s) + 30
        \<and> rect_bottom (paddle2 s) < HEIGHT
      then s\<lparr>paddle2 := move_y PADDLE_SPEED (paddle2 s)\<rparr> else s)"
  have one: "in_field (paddle2 s1) \<and> on_grid (paddle2 s1)"
    using assms step_down_keeps [of "paddle2 s"] by (simp add: s1_def)
  have "paddle2_ai s = (if rect_centery (ball s1) < rect_centery (paddle2 s1) - 30
        \<and> rect_top (paddle2 s1) > 0
      then s1\<lparr>paddle2 := move_y (- PADDLE_SPEED) (paddle2 s1)\<rparr> else s1)"
    by (simp add: paddle2_ai_def s1_def Let_def)
  then show ?thesis
    using one step_up_keeps [of "paddle2 s1"] by simp
qed

lemma move_paddles_keeps:
  assumes "in_field (paddle1 s)" and "on_grid (paddle1 s)"
    and "in_field (paddle2 s)" and "on_grid (paddle2 s)"
  shows "in_field (paddle1 (move_paddles k s)) \<and> on_grid (paddle1 (move_paddles k s))
       \<and> in_field (paddle2 (move_paddles k s)) \<and> on_grid (paddle2 (move_paddles k s))"
proof -
  have p1: "in_field (paddle1 (paddle1_keys k s)) \<and> on_grid (paddle1 (paddle1_keys k s))"
    using assms(1,2) by (rule paddle1_keys_keeps)
  have p2: "in_field (paddle2 (paddle1_keys k s)) \<and> on_grid (paddle2 (paddle1_keys k s))"
    using assms(3,4) by simp
  show ?thesis
    using p1 p2 paddle2_keys_keeps [of "paddle1_keys k s" k] paddle2_ai_keeps [of "paddle1_keys k s"]
    by (simp add: move_paddles_def Let_def)
qed

text \<open>The paddles as an effective update leaves them are those of the movement phase.\<close>

lemma update_paddles:
  "effective t s \<Longrightarrow>
     paddle1 (fst (update t k s)) = paddle1 (move_paddles k (s\<lparr>last_update := t\<rparr>))
   \<and> paddle2 (fst (update t k s)) = paddle2 (move_paddles k (s\<lparr>last_update := t\<rparr>))"
  by (simp add: update_effective advance_def)

lemma move_y_columns [simp]:
  "rect_x (move_y d r) = rect_x r"
  "rect_w (move_y d r) = rect_w r"
  "rect_h (move_y d r) = rect_h r"
  by (simp_all add: move_y_def)

lemma paddle1_keys_columns:
  "rect_x (paddle1 (paddle1_keys k s)) = rect_x (paddle1 s)"
  "rect_w (paddle1 (paddle1_keys k s)) = rect_w (paddle1 s)"
  by (simp_all add: paddle1_keys_def Let_def)

lemma paddle2_keys_columns:
  "rect_x (paddle2 (paddle2_keys k s)) = rect_x (paddle2 s)"
  "rect_w (paddle2 (paddle2_keys k s)) = rect_w (paddle2 s)"
  by (simp_all add: paddle2_keys_def Let_def)

lemma paddle2_ai_columns:
  "rect_x (paddle2 (paddle2_ai s)) = rect_x (paddle2 s)"
  "rect_w (paddle2 (paddle2_ai s)) = rect_w (paddle2 s)"
  by (simp_all add: paddle2_ai_def Let_def)

lemma move_paddles_columns:
  "rect_x (paddle1 (move_paddles k s)) = rect_x (paddle1 s)"
  "rect_w (paddle1 (move_paddles k s)) = rect_w (paddle1 s)"
  "rect_x (paddle2 (move_paddles k s)) = rect_x (paddle2 s)"
  "rect_w (paddle2 (move_paddles k s)) = rect_w (paddle2 s)"
  by (simp_all add: move_paddles_def Let_def paddle1_keys_columns paddle2_keys_columns
      paddle2_ai_columns)

lemma paddles_placed_update: "paddles_placed s \<Longrightarrow> paddles_placed (fst (update t k s))"
proof (cases "effective t s")
  case False
  assume "paddles_placed s"
  with False show ?thesis by (simp add: update_not_effective)
next
  case True
  assume "paddles_placed s"
  then show ?thesis
    using update_paddles [OF True, of k]
    by (simp add: paddles_placed_def move_paddles_columns)
qed

lemma paddles_in_field_update:
  assumes "in_field (paddle1 s)" and "on_grid (paddle1 s)"
    and "in_field (paddle2 s)" and "on_grid (paddle2 s)"
  shows "in_field (paddle1 (fst (update t k s))) \<and> on_grid (paddle1 (fst (update t k s)))
       \<and> in_field (paddle2 (fst (update t k s))) \<and> on_grid (paddle2 (fst (update t k s)))"
proof (cases "effective t s")
  case False
  with assms show ?thesis by (simp add: update_not_effective)
next
  case True
  have "in_field (paddle1 (s\<lparr>last_update := t\<rparr>))" "on_grid (paddle1 (s\<lparr>last_update := t\<rparr>))"
    "in_field (paddle2 (s\<lparr>last_update := t\<rparr>))" "on_grid (paddle2 (s\<lparr>last_update := t\<rparr>))"
    using assms by simp_all
  then show ?thesis
    using update_paddles [OF True, of k] move_paddles_keeps [of "s\<lparr>last_update := t\<rparr>" k]
    by simp
qed

lemma start_paddle_ok:
  "in_field (Rect 50 210 10 60)" "on_grid (Rect 50 210 10 60)"
  "in_field (Rect 580 210 10 60)" "on_grid (Rect 580 210 10 60)"
  by (simp_all add: in_field_def on_grid_def rect_defs consts_defs)

lemma reachable_paddles:
  "reachable s \<Longrightarrow>
     paddles_placed s \<and> in_field (paddle1 s) \<and> on_grid (paddle1 s)
     \<and> in_field (paddle2 s) \<and> on_grid (paddle2 s)"
proof (induction rule: reachable.induct)
  case (reach_init t)
  show ?case
    by (simp add: start_paddle_ok) (simp add: paddles_placed_def Rect_def consts_defs)
next
  case (reach_event s e r)
  have "paddles_placed (reset s)"
    by (simp add: paddles_placed_def Rect_def consts_defs)
  with reach_event.IH show ?case
    using handle_event_keeps [where P = "\<lambda>u. paddles_placed u \<and> in_field (paddle1 u)
        \<and> on_grid (paddle1 u) \<and> in_field (paddle2 u) \<and> on_grid (paddle2 u)", of s e r]
    by (simp add: start_paddle_ok paddles_placed_def)
next
  case (reach_update s t k)
  then show ?case
    by (simp add: paddles_placed_update paddles_in_field_update)
qed

subsection \<open>The velocity keeps its magnitude\<close>

lemma scoring_speed:
  "ball_speed (fst (scoring s)) = ball_speed s
   \<or> ball_speed (fst (scoring s)) = (BALL_SPEED, BALL_SPEED)
   \<or> ball_speed (fst (scoring s)) = (- BALL_SPEED, BALL_SPEED)"
  by (simp add: scoring_def score_left_def score_right_def split: prod.splits)

lemma unit_speed_update:
  assumes "unit_speed (ball_speed s)"
  shows "unit_speed (ball_speed (fst (update t k s)))"
proof (cases "effective t s")
  case False
  with assms show ?thesis by (simp add: update_not_effective)
next
  case True
  let ?u = "fst (paddle_collision (fst (wall_collision (advance t k s))))"
  have "unit_speed (ball_speed ?u)"
    using assms by (simp add: collisions_speed unit_speed_def)
  moreover have "unit_speed (BALL_SPEED, BALL_SPEED)" "unit_speed (- BALL_SPEED, BALL_SPEED)"
    by (simp_all add: unit_speed_def consts_defs)
  ultimately have "unit_speed (ball_speed (fst (scoring ?u)))"
    using scoring_speed [of ?u] by auto
  then show ?thesis
    using True by (simp add: update_effective)
qed

lemma unit_speed_event:
  assumes "unit_speed (ball_speed s)"
  shows "unit_speed (ball_speed (fst (handle_event e (s, r))))"
  using assms handle_event_keeps [where P = "\<lambda>u. unit_speed (ball_speed u)", of s e r]
  by (simp add: unit_speed_def consts_defs)

lemma reachable_unit_speed: "reachable s \<Longrightarrow> unit_speed (ball_speed s)"
proof (induction rule: reachable.induct)
  case (reach_init t)
  show ?case by (simp add: unit_speed_def consts_defs)
next
  case (reach_event s e r)
  then show ?case by (simp add: unit_speed_event)
next
  case (reach_update s t k)
  then show ?case by (simp add: unit_speed_update)
qed

subsection \<open>The match is concluded exactly at a winning score\<close>

lemma win_condition_game_over:
  "game_over (win_condition s) = (game_over s \<or> 5 \<le> score1 s \<or> 5 \<le> score2 s)"
  by (auto simp add: win_condition_def)

lemma update_effective_game_over:
  "effective t s \<Longrightarrow>
     game_over (fst (update t k s))
       = (5 \<le> score1 (fst (update t k s)) \<or> 5 \<le> score2 (fst (update t k s)))"
  by (simp add: update_effective win_condition_game_over) (simp add: effective_def)

lemma game_over_iff_update:
  assumes "game_over s = (5 \<le> score1 s \<or> 5 \<le> score2 s)"
  shows "game_over (fst (update t k s))
       = (5 \<le> score1 (fst (update t k s)) \<or> 5 \<le> score2 (fst (update t k s)))"
proof (cases "effective t s")
  case False
  with assms show ?thesis by (simp add: update_not_effective)
next
  case True
  then show ?thesis by (rule update_effective_game_over)
qed

lemma game_over_iff_event:
  assumes "game_over s = (5 \<le> score1 s \<or> 5 \<le> score2 s)"
  shows "game_over (fst (handle_event e (s, r)))
       = (5 \<le> score1 (fst (handle_event e (s, r))) \<or> 5 \<le> score2 (fst (handle_event e (s, r))))"
  using assms
    handle_event_keeps [where P = "\<lambda>u. game_over u = (5 \<le> score1 u \<or> 5 \<le> score2 u)", of s e r]
  by simp

section \<open>The idle session, state by state\<close>

lemma idle_to_deadband:
  "fst (main_loop (idle 6 0) (Game_init 0, True)) = in_deadband_state"
  by code_simp

lemma idle_to_tracking:
  "fst (main_loop (idle 1 192) (in_deadband_state, True)) = tracking_state"
  by code_simp

lemma idle_to_wall:
  "fst (main_loop (idle 50 224) (tracking_state, True)) = before_wall_state"
  by code_simp

lemma idle_to_paddle:
  "fst (main_loop (idle 8 1824) (before_wall_state, True)) = before_paddle_state"
  by code_simp

lemma idle_to_right_score:
  "fst (main_loop (idle 30 2080) (before_paddle_state, True)) = before_right_score_state"
  by code_simp

lemma idle_to_left_score:
  "fst (main_loop (idle 79 3040) (before_right_score_state, True)) = before_left_score_state"
  by code_simp

lemma idle_to_match_point:
  "fst (main_loop (idle 730 5568) (before_left_score_state, True)) = match_point_state"
  by code_simp

lemma idle_to_concluded:
  "fst (main_loop (idle 1 28928) (match_point_state, True)) = concluded_state"
  by code_simp

lemma reachable_in_deadband_state: "reachable in_deadband_state"
  using reachable_main_loop [OF reach_init, of "idle 6 0" 0 True]
  by (simp only: idle_to_deadband)

lemma reachable_tracking_state: "reachable tracking_state"
  using reachable_main_loop [OF reachable_in_deadband_state, of "idle 1 192" True]
  by (simp only: idle_to_tracking)

lemma reachable_before_wall_state: "reachable before_wall_state"
  using reachable_main_loop [OF reachable_tracking_state, of "idle 50 224" True]
  by (simp only: idle_to_wall)

lemma reachable_before_paddle_state: "reachable before_paddle_state"
  using reachable_main_loop [OF reachable_before_wall_state, of "idle 8 1824" True]
  by (simp only: idle_to_paddle)

lemma reachable_before_right_score_state: "reachable before_right_score_state"
  using reachable_main_loop [OF reachable_before_paddle_state, of "idle 30 2080" True]
  by (simp only: idle_to_right_score)

lemma reachable_before_left_score_state: "reachable before_left_score_state"
  using reachable_main_loop [OF reachable_before_right_score_state, of "idle 79 3040" True]
  by (simp only: idle_to_left_score)

lemma reachable_match_point_state: "reachable match_point_state"
  using reachable_main_loop [OF reachable_before_left_score_state, of "idle 730 5568" True]
  by (simp only: idle_to_match_point)

lemma reachable_concluded_state: "reachable concluded_state"
  using reachable_main_loop [OF reachable_match_point_state, of "idle 1 28928" True]
  by (simp only: idle_to_concluded)

subsection \<open>The session with W and UP held\<close>

lemma held_to_top:
  "fst (main_loop (held up_keys 70 0) (Game_init 0, True)) = paddle_at_top_state"
  by code_simp

lemma reachable_paddle_at_top_state: "reachable paddle_at_top_state"
  using reachable_main_loop [OF reach_init, of "held up_keys 70 0" 0 True]
  by (simp only: held_to_top)

section \<open>An effective update, for a ball of the game's size\<close>

lemma set_center_center: "rect_center (set_center c r) = c"
  by (simp add: rect_center_def rect_centerx_def rect_centery_def set_center_def)

lemma update_sized:
  assumes "ball_sized s" and "effective t s"
  shows "ball_speed (fst (update t k s)) =
      (if rect_left (ball (advance t k s)) \<le> 0 then (BALL_SPEED, BALL_SPEED)
       else if WIDTH \<le> rect_right (ball (advance t k s)) then (- BALL_SPEED, BALL_SPEED)
       else ((if hits_paddle (advance t k s) then - fst (ball_speed s) else fst (ball_speed s)),
             (if hits_wall (advance t k s) then - snd (ball_speed s) else snd (ball_speed s))))"
      (is ?speed)
    and "ball (fst (update t k s)) =
      (if rect_left (ball (advance t k s)) \<le> 0 \<or> WIDTH \<le> rect_right (ball (advance t k s))
       then set_center (WIDTH div 2, HEIGHT div 2) (ball (advance t k s))
       else ball (advance t k s))"
      (is ?ball)
    and "score1 (fst (update t k s)) =
      (if 0 < rect_left (ball (advance t k s)) \<and> WIDTH \<le> rect_right (ball (advance t k s))
       then score1 s + 1 else score1 s)"
      (is ?one)
    and "score2 (fst (update t k s)) =
      (if rect_left (ball (advance t k s)) \<le> 0 then score2 s + 1 else score2 s)"
      (is ?two)
proof -
  let ?u = "fst (paddle_collision (fst (wall_collision (advance t k s))))"
  have sized: "ball_sized ?u"
    using assms(1) by (intro ball_sized_collisions ball_sized_advance)
  have upd: "fst (update t k s) = win_condition (fst (scoring ?u))"
    using assms(2) by (rule update_effective)
  show ?speed
    by (simp add: upd scoring_sized [OF sized] collisions_speed)
  show ?ball
    by (simp add: upd scoring_sized [OF sized])
  show ?one
    by (simp add: upd scoring_sized [OF sized])
  show ?two
    by (simp add: upd scoring_sized [OF sized])
qed

text \<open>A ball of the game's size that has reached the right boundary is clear of the left one.\<close>

lemma sized_right_not_left:
  "ball_sized s \<Longrightarrow> WIDTH \<le> rect_right (ball s) \<Longrightarrow> 0 < rect_left (ball s)"
  by (simp add: ball_sized_def rect_left_def rect_right_def consts_defs)

subsection \<open>The tracking opponent\<close>

lemma move_y_centery:
  "rect_centery (move_y d r) = rect_centery r + d"
  "rect_top (move_y d r) = rect_top r + d"
  by (simp_all add: rect_centery_def rect_top_def move_y_def)

lemma paddle2_ai_exact:
  "paddle2 (paddle2_ai s) =
     (if rect_centery (ball s) > rect_centery (paddle2 s) + 30 \<and> rect_bottom (paddle2 s) < HEIGHT
      then move_y PADDLE_SPEED (paddle2 s)
      else if rect_centery (ball s) < rect_centery (paddle2 s) - 30 \<and> rect_top (paddle2 s) > 0
      then move_y (- PADDLE_SPEED) (paddle2 s)
      else paddle2 s)"
  by (simp add: paddle2_ai_def Let_def move_y_centery PADDLE_SPEED_def)

lemma update_paddle2_ai:
  assumes "effective t s" and "ai_active s"
  shows "paddle2 (fst (update t k s)) =
     (if rect_centery (ball s) > rect_centery (paddle2 s) + 30 \<and> rect_bottom (paddle2 s) < HEIGHT
      then move_y PADDLE_SPEED (paddle2 s)
      else if rect_centery (ball s) < rect_centery (paddle2 s) - 30 \<and> rect_top (paddle2 s) > 0
      then move_y (- PADDLE_SPEED) (paddle2 s)
      else paddle2 s)"
proof -
  have "paddle2 (fst (update t k s)) = paddle2 (move_paddles k (s\<lparr>last_update := t\<rparr>))"
    using update_paddles [OF assms(1), of k] by simp
  also have "\<dots> = paddle2 (paddle2_ai (paddle1_keys k (s\<lparr>last_update := t\<rparr>)))"
    using assms(2) by (simp add: move_paddles_def Let_def)
  finally show ?thesis
    by (simp add: paddle2_ai_exact)
qed

subsection \<open>Events and the scores\<close>

lemma handle_event_scores:
  assumes "e \<noteq> KEYDOWN K_r" and "\<not> (e = KEYDOWN K_y \<and> game_over s)"
  shows "score1 (fst (handle_event e (s, r))) = score1 s
       \<and> score2 (fst (handle_event e (s, r))) = score2 s"
proof (cases e)
  case QUIT
  then show ?thesis by simp
next
  case OTHER
  then show ?thesis by simp
next
  case (KEYDOWN c)
  with assms show ?thesis
    by (cases c) (simp_all add: Let_def)
qed

section \<open>The match-concluded flag\<close>

text \<open>
  C1. In every reachable state the match-concluded flag \<open>game_over\<close> is true
  exactly when one of the scores has reached the winning threshold 5; and a
  call of \<open>update\<close> in which a score first reaches 5 (both were below 5 before
  the call, one is at least 5 after it) leaves \<open>game_over\<close> true.
\<close>

theorem game_over_iff_winning_score:
  assumes reach: "reachable s"
  shows "game_over s = (5 \<le> score1 s \<or> 5 \<le> score2 s)
       \<and> (score1 s < 5 \<and> score2 s < 5
            \<and> (5 \<le> score1 (fst (update t k s)) \<or> 5 \<le> score2 (fst (update t k s)))
          \<longrightarrow> game_over (fst (update t k s)))"
proof -
  have inv: "game_over u = (5 \<le> score1 u \<or> 5 \<le> score2 u)" if "reachable u" for u
    using that
  proof (induction rule: reachable.induct)
    case (reach_init t0)
    show ?case by simp
  next
    case (reach_event u e r)
    from reach_event.IH show ?case by (rule game_over_iff_event)
  next
    case (reach_update u t1 k1)
    from reach_update.IH show ?case by (rule game_over_iff_update)
  qed
  have "reachable (fst (update t k s))"
    using reach by (rule reach_update)
  then have "game_over (fst (update t k s))
      = (5 \<le> score1 (fst (update t k s)) \<or> 5 \<le> score2 (fst (update t k s)))"
    by (rule inv)
  with inv [OF reach] show ?thesis by blast
qed

text \<open>
  The theorem at match point of the idle session: the scores are 3 and 4, the
  next update takes the second score to 5 and concludes the match.
\<close>

theorem game_over_iff_winning_score_witness:
  "reachable match_point_state
   \<and> \<not> game_over match_point_state
   \<and> score1 match_point_state < 5 \<and> score2 match_point_state < 5
   \<and> 5 \<le> score2 (fst (update 28960 nokeys match_point_state))
   \<and> game_over (fst (update 28960 nokeys match_point_state))"
proof -
  have r: "reachable match_point_state"
    by (rule reachable_match_point_state)
  have before: "score1 match_point_state < 5 \<and> score2 match_point_state < 5"
    by code_simp
  have after: "5 \<le> score2 (fst (update 28960 nokeys match_point_state))"
    by code_simp
  from game_over_iff_winning_score [OF r, of 28960 nokeys] before after
  have "\<not> game_over match_point_state
      \<and> game_over (fst (update 28960 nokeys match_point_state))"
    by simp
  with r before after show ?thesis by simp
qed

section \<open>The update of a concluded match\<close>

text \<open>
  C2. When the match is concluded (\<open>game_over\<close> is true), \<open>update\<close> returns at
  once: every attribute of the state, \<open>last_update\<close> included, is as before,
  whatever the clock and the keys are, and no sound is played.
\<close>

theorem update_game_over_noop:
  "game_over s \<Longrightarrow> update t k s = (s, [])"
  by (simp add: update_def)

text \<open>The theorem at the concluded state of the idle session, with every key held.\<close>

theorem update_game_over_noop_witness:
  "reachable concluded_state \<and> game_over concluded_state
   \<and> update 28992 all_keys concluded_state = (concluded_state, [])"
proof -
  have g: "game_over concluded_state"
    by (simp add: concluded_state_def)
  from update_game_over_noop [OF g, of 28992 all_keys] g reachable_concluded_state
  show ?thesis by simp
qed

section \<open>Reset\<close>

text \<open>
  C3. After \<open>reset\<close>, from whatever state: both scores are 0, both paddles are
  vertically centred in the field and \<open>game_over\<close> is false. The ball's top-left
  corner, not its centre, is at the centre of the field: its centre lies half
  a ball further right and further down, at (325, 245), and so differs from
  the field's centre (\<open>WIDTH div 2\<close>, \<open>HEIGHT div 2\<close>) = (320, 240), where the
  scoring branches of \<open>update\<close> do put it.
\<close>

theorem reset_ball_off_center:
  "score1 (reset s) = 0 \<and> score2 (reset s) = 0
   \<and> rect_centery (paddle1 (reset s)) = HEIGHT div 2
   \<and> rect_centery (paddle2 (reset s)) = HEIGHT div 2
   \<and> \<not> game_over (reset s)
   \<and> (rect_left (ball (reset s)), rect_top (ball (reset s))) = (WIDTH div 2, HEIGHT div 2)
   \<and> rect_center (ball (reset s)) = (325, 245)
   \<and> rect_center (ball (reset s)) \<noteq> (WIDTH div 2, HEIGHT div 2)"
  by (simp add: rect_defs consts_defs)

section \<open>Paddle movement\<close>

text \<open>
  C4. In an effective call of \<open>update\<close> from a reachable state in which both
  paddles lie within the vertical bounds of the field (top \<open>\<ge> 0\<close> and bottom
  \<open>\<le> HEIGHT\<close>), both paddles lie within the vertical bounds of the field
  after the paddle-movement phase, whatever keys are held and with either
  kind of control of paddle two, and they still do when the call returns.
\<close>

theorem paddles_stay_in_field:
  assumes "reachable s" and "effective t s"
    and "in_field (paddle1 s)" and "in_field (paddle2 s)"
  shows "in_field (paddle1 (move_paddles k (s\<lparr>last_update := t\<rparr>)))
       \<and> in_field (paddle2 (move_paddles k (s\<lparr>last_update := t\<rparr>)))
       \<and> in_field (paddle1 (fst (update t k s)))
       \<and> in_field (paddle2 (fst (update t k s)))"
proof -
  let ?s0 = "s\<lparr>last_update := t\<rparr>"
  have grid: "on_grid (paddle1 s)" "on_grid (paddle2 s)"
    using reachable_paddles [OF assms(1)] by simp_all
  have "in_field (paddle1 ?s0)" "on_grid (paddle1 ?s0)"
    "in_field (paddle2 ?s0)" "on_grid (paddle2 ?s0)"
    using assms(3,4) grid by simp_all
  then have moved: "in_field (paddle1 (move_paddles k ?s0)) \<and> on_grid (paddle1 (move_paddles k ?s0))
      \<and> in_field (paddle2 (move_paddles k ?s0)) \<and> on_grid (paddle2 (move_paddles k ?s0))"
    by (rule move_paddles_keeps)
  with update_paddles [OF assms(2), of k] show ?thesis by simp
qed

text \<open>
  The theorem in the session with W and UP held, at the 71st update: paddle
  one is at the top of the field and, with W still held, stays there.
\<close>

theorem paddles_stay_in_field_witness:
  "reachable paddle_at_top_state \<and> effective 2272 paddle_at_top_state
   \<and> in_field (paddle1 paddle_at_top_state) \<and> in_field (paddle2 paddle_at_top_state)
   \<and> rect_top (paddle1 paddle_at_top_state) = 0
   \<and> in_field (paddle1 (move_paddles up_keys (paddle_at_top_state\<lparr>last_update := 2272\<rparr>)))
   \<and> in_field (paddle2 (move_paddles up_keys (paddle_at_top_state\<lparr>last_update := 2272\<rparr>)))
   \<and> in_field (paddle1 (fst (update 2272 up_keys paddle_at_top_state)))
   \<and> in_field (paddle2 (fst (update 2272 up_keys paddle_at_top_state)))"
proof -
  have e: "effective 2272 paddle_at_top_state"
    by code_simp
  have f1: "in_field (paddle1 paddle_at_top_state)"
    and f2: "in_field (paddle2 paddle_at_top_state)"
    and top: "rect_top (paddle1 paddle_at_top_state) = 0"
    by code_simp+
  from paddles_stay_in_field [OF reachable_paddle_at_top_state e f1 f2, of up_keys]
    reachable_paddle_at_top_state e f1 f2 top
  show ?thesis by simp
qed

section \<open>Paddle hits\<close>

text \<open>
  C5, as amended. In an effective call of \<open>update\<close> from a reachable state in
  which the ball, once advanced by its velocity, passes neither the left nor
  the right boundary of the field (no score event), the horizontal velocity
  after the call is the negation of the one before if and only if the
  advanced ball's bounding box overlaps the bounding box of paddle one or of
  paddle two, the paddles being where the movement phase of that call has put
  them.
\<close>

theorem horizontal_flip_iff_paddle_hit:
  assumes "reachable s" and "effective t s"
    and "0 < rect_left (ball (advance t k s))"
    and "rect_right (ball (advance t k s)) < WIDTH"
  shows "(fst (ball_speed (fst (update t k s))) = - fst (ball_speed s))
       = hits_paddle (advance t k s)"
proof -
  have sized: "ball_sized s"
    using assms(1) by (rule reachable_ball_sized)
  have "unit_speed (ball_speed s)"
    using assms(1) by (rule reachable_unit_speed)
  then have moving: "fst (ball_speed s) \<noteq> 0"
    by (auto simp add: unit_speed_def consts_defs)
  have "fst (ball_speed (fst (update t k s)))
      = (if hits_paddle (advance t k s) then - fst (ball_speed s) else fst (ball_speed s))"
    using assms(3,4) by (simp add: update_sized(1) [OF sized assms(2)])
  with moving show ?thesis by auto
qed

text \<open>
  The claim as first stated covers the ticks with a score event too. In the
  idle session the ball passes the right boundary in the 96th update, well
  clear of both paddles: the horizontal velocity goes from 4 to the serve
  value -4 without any overlap.
\<close>

theorem horizontal_flip_counterexample:
  "reachable before_right_score_state
   \<and> effective 3072 before_right_score_state
   \<and> fst (ball_speed (fst (update 3072 nokeys before_right_score_state)))
       = - fst (ball_speed before_right_score_state)
   \<and> \<not> hits_paddle (advance 3072 nokeys before_right_score_state)"
proof -
  have "effective 3072 before_right_score_state
   \<and> fst (ball_speed (fst (update 3072 nokeys before_right_score_state)))
       = - fst (ball_speed before_right_score_state)
   \<and> \<not> hits_paddle (advance 3072 nokeys before_right_score_state)"
    by code_simp
  with reachable_before_right_score_state show ?thesis by simp
qed

text \<open>
  The amended theorem in the idle session: the 66th update, in which the ball
  enters paddle two, and the 8th, in which it is in mid-field.
\<close>

theorem horizontal_flip_iff_paddle_hit_witness:
  "reachable before_paddle_state \<and> effective 2112 before_paddle_state
   \<and> 0 < rect_left (ball (advance 2112 nokeys before_paddle_state))
   \<and> rect_right (ball (advance 2112 nokeys before_paddle_state)) < WIDTH
   \<and> hits_paddle (advance 2112 nokeys before_paddle_state)
   \<and> fst (ball_speed (fst (update 2112 nokeys before_paddle_state)))
       = - fst (ball_speed before_paddle_state)
   \<and> reachable tracking_state \<and> effective 256 tracking_state
   \<and> 0 < rect_left (ball (advance 256 nokeys tracking_state))
   \<and> rect_right (ball (advance 256 nokeys tracking_state)) < WIDTH
   \<and> \<not> hits_paddle (advance 256 nokeys tracking_state)
   \<and> fst (ball_speed (fst (update 256 nokeys tracking_state)))
       \<noteq> - fst (ball_speed tracking_state)"
proof -
  have e1: "effective 2112 before_paddle_state"
    and l1: "0 < rect_left (ball (advance 2112 nokeys before_paddle_state))"
    and r1: "rect_right (ball (advance 2112 nokeys before_paddle_state)) < WIDTH"
    and h1: "hits_paddle (advance 2112 nokeys before_paddle_state)"
    by code_simp+
  have e2: "effective 256 tracking_state"
    and l2: "0 < rect_left (ball (advance 256 nokeys tracking_state))"
    and r2: "rect_right (ball (advance 256 nokeys tracking_state)) < WIDTH"
    and h2: "\<not> hits_paddle (advance 256 nokeys tracking_state)"
    by code_simp+
  note hit = horizontal_flip_iff_paddle_hit [OF reachable_before_paddle_state e1 l1 r1]
  note miss = horizontal_flip_iff_paddle_hit [OF reachable_tracking_state e2 l2 r2]
  from hit h1 have flip: "fst (ball_speed (fst (update 2112 nokeys before_paddle_state)))
      = - fst (ball_speed before_paddle_state)"
    by simp
  from miss h2 have keep: "fst (ball_speed (fst (update 256 nokeys tracking_state)))
      \<noteq> - fst (ball_speed tracking_state)"
    by simp
  from reachable_before_paddle_state reachable_tracking_state e1 l1 r1 h1 e2 l2 r2 h2 flip keep
  show ?thesis by simp
qed

section \<open>Wall hits\<close>

text \<open>
  C6, as amended. In an effective call of \<open>update\<close> from a reachable state in
  which the ball, once advanced by its velocity, passes neither the left nor
  the right boundary of the field (no score event), the vertical velocity
  after the call is the negation of the one before if and only if the
  advanced ball's vertical extent reaches the top or the bottom of the field
  (top \<open>\<le> 0\<close> or bottom \<open>\<ge> HEIGHT\<close>).
\<close>

theorem vertical_flip_iff_wall_hit:
  assumes "reachable s" and "effective t s"
    and "0 < rect_left (ball (advance t k s))"
    and "rect_right (ball (advance t k s)) < WIDTH"
  shows "(snd (ball_speed (fst (update t k s))) = - snd (ball_speed s))
       = (rect_top (ball (advance t k s)) \<le> 0 \<or> HEIGHT \<le> rect_bottom (ball (advance t k s)))"
proof -
  have sized: "ball_sized s"
    using assms(1) by (rule reachable_ball_sized)
  have "unit_speed (ball_speed s)"
    using assms(1) by (rule reachable_unit_speed)
  then have moving: "snd (ball_speed s) \<noteq> 0"
    by (auto simp add: unit_speed_def consts_defs)
  have "snd (ball_speed (fst (update t k s)))
      = (if hits_wall (advance t k s) then - snd (ball_speed s) else snd (ball_speed s))"
    using assms(3,4) by (simp add: update_sized(1) [OF sized assms(2)])
  with moving show ?thesis by (auto simp add: hits_wall_def)
qed

text \<open>
  The claim as first stated covers the ticks with a score event too. In the
  idle session the ball passes the left boundary in the 175th update, in
  mid-height and moving up: the vertical velocity goes from -4 to the serve
  value 4 with the ball nowhere near the top or the bottom.
\<close>

theorem vertical_flip_counterexample:
  "reachable before_left_score_state
   \<and> effective 5600 before_left_score_state
   \<and> snd (ball_speed (fst (update 5600 nokeys before_left_score_state)))
       = - snd (ball_speed before_left_score_state)
   \<and> 0 < rect_top (ball (advance 5600 nokeys before_left_score_state))
   \<and> rect_bottom (ball (advance 5600 nokeys before_left_score_state)) < HEIGHT"
proof -
  have "effective 5600 before_left_score_state
   \<and> snd (ball_speed (fst (update 5600 nokeys before_left_score_state)))
       = - snd (ball_speed before_left_score_state)
   \<and> 0 < rect_top (ball (advance 5600 nokeys before_left_score_state))
   \<and> rect_bottom (ball (advance 5600 nokeys before_left_score_state)) < HEIGHT"
    by code_simp
  with reachable_before_left_score_state show ?thesis by simp
qed

text \<open>
  The amended theorem in the idle session: the 58th update, in which the ball
  reaches the bottom of the field, and the 8th, in which it is in mid-field.
\<close>

theorem vertical_flip_iff_wall_hit_witness:
  "reachable before_wall_state \<and> effective 1856 before_wall_state
   \<and> 0 < rect_left (ball (advance 1856 nokeys before_wall_state))
   \<and> rect_right (ball (advance 1856 nokeys before_wall_state)) < WIDTH
   \<and> HEIGHT \<le> rect_bottom (ball (advance 1856 nokeys before_wall_state))
   \<and> snd (ball_speed (fst (update 1856 nokeys before_wall_state)))
       = - snd (ball_speed before_wall_state)
   \<and> reachable tracking_state \<and> effective 256 tracking_state
   \<and> 0 < rect_left (ball (advance 256 nokeys tracking_state))
   \<and> rect_right (ball (advance 256 nokeys tracking_state)) < WIDTH
   \<and> 0 < rect_top (ball (advance 256 nokeys tracking_state))
   \<and> rect_bottom (ball (advance 256 nokeys tracking_state)) < HEIGHT
   \<and> snd (ball_speed (fst (update 256 nokeys tracking_state)))
       \<noteq> - snd (ball_speed tracking_state)"
proof -
  have e1: "effective 1856 before_wall_state"
    and l1: "0 < rect_left (ball (advance 1856 nokeys before_wall_state))"
    and r1: "rect_right (ball (advance 1856 nokeys before_wall_state)) < WIDTH"
    and h1: "HEIGHT \<le> rect_bottom (ball (advance 1856 nokeys before_wall_state))"
    by code_simp+
  have e2: "effective 256 tracking_state"
    and l2: "0 < rect_left (ball (advance 256 nokeys tracking_state))"
    and r2: "rect_right (ball (advance 256 nokeys tracking_state)) < WIDTH"
    and h2: "0 < rect_top (ball (advance 256 nokeys tracking_state))"
    and h3: "rect_bottom (ball (advance 256 nokeys tracking_state)) < HEIGHT"
    by code_simp+
  note hit = vertical_flip_iff_wall_hit [OF reachable_before_wall_state e1 l1 r1]
  note miss = vertical_flip_iff_wall_hit [OF reachable_tracking_state e2 l2 r2]
  from hit h1 have flip: "snd (ball_speed (fst (update 1856 nokeys before_wall_state)))
      = - snd (ball_speed before_wall_state)"
    by simp
  from miss h2 h3 have keep: "snd (ball_speed (fst (update 256 nokeys tracking_state)))
      \<noteq> - snd (ball_speed tracking_state)"
    by simp
  from reachable_before_wall_state reachable_tracking_state e1 l1 r1 h1 e2 l2 r2 h2 h3 flip keep
  show ?thesis by simp
qed

section \<open>Score events\<close>

text \<open>
  C7, as amended. In an effective call of \<open>update\<close> from a reachable state: when
  the advanced ball's left edge has reached the left boundary (\<open>left \<le> 0\<close>),
  the right player's score \<open>score2\<close> goes up by 1 and \<open>score1\<close> stays, the
  ball's centre is put at the centre of the field and the velocity becomes
  (\<open>BALL_SPEED\<close>, \<open>BALL_SPEED\<close>); when its right edge has reached the right
  boundary (\<open>right \<ge> WIDTH\<close>), \<open>score1\<close> goes up by 1 and \<open>score2\<close> stays, the
  ball is centred and the velocity becomes (\<open>- BALL_SPEED\<close>, \<open>BALL_SPEED\<close>). In
  both cases the ball is served toward the paddle of the player who has just
  scored.
\<close>

theorem score_event_effect:
  assumes "reachable s" and "effective t s"
  shows "(rect_left (ball (advance t k s)) \<le> 0 \<longrightarrow>
            score2 (fst (update t k s)) = score2 s + 1
          \<and> score1 (fst (update t k s)) = score1 s
          \<and> rect_center (ball (fst (update t k s))) = (WIDTH div 2, HEIGHT div 2)
          \<and> ball_speed (fst (update t k s)) = (BALL_SPEED, BALL_SPEED)
          \<and> heads_toward (fst (update t k s)) (paddle2 (fst (update t k s))))
       \<and> (WIDTH \<le> rect_right (ball (advance t k s)) \<longrightarrow>
            score1 (fst (update t k s)) = score1 s + 1
          \<and> score2 (fst (update t k s)) = score2 s
          \<and> rect_center (ball (fst (update t k s))) = (WIDTH div 2, HEIGHT div 2)
          \<and> ball_speed (fst (update t k s)) = (- BALL_SPEED, BALL_SPEED)
          \<and> heads_toward (fst (update t k s)) (paddle1 (fst (update t k s))))"
proof -
  let ?s' = "fst (update t k s)"
  have sized: "ball_sized s"
    using assms(1) by (rule reachable_ball_sized)
  note upd = update_sized [OF sized assms(2), of k]
  have "reachable ?s'"
    using assms(1) by (rule reach_update)
  then have "paddles_placed ?s'"
    using reachable_paddles by blast
  then have columns: "rect_centerx (paddle1 ?s') = 55" "rect_centerx (paddle2 ?s') = 585"
    by (simp_all add: paddles_placed_def rect_centerx_def half_def consts_defs)
  have left: "score2 ?s' = score2 s + 1 \<and> score1 ?s' = score1 s
      \<and> rect_center (ball ?s') = (WIDTH div 2, HEIGHT div 2)
      \<and> ball_speed ?s' = (BALL_SPEED, BALL_SPEED) \<and> heads_toward ?s' (paddle2 ?s')"
    if passed: "rect_left (ball (advance t k s)) \<le> 0"
  proof -
    have centre: "rect_center (ball ?s') = (WIDTH div 2, HEIGHT div 2)"
      using passed by (simp add: upd(2) set_center_center)
    then have "rect_centerx (ball ?s') = 320"
      by (simp add: rect_center_def consts_defs)
    moreover have speed: "ball_speed ?s' = (BALL_SPEED, BALL_SPEED)"
      using passed by (simp add: upd(1))
    ultimately have "heads_toward ?s' (paddle2 ?s')"
      by (simp add: heads_toward_def columns consts_defs)
    with centre speed passed show ?thesis
      by (simp add: upd(3,4))
  qed
  have right: "score1 ?s' = score1 s + 1 \<and> score2 ?s' = score2 s
      \<and> rect_center (ball ?s') = (WIDTH div 2, HEIGHT div 2)
      \<and> ball_speed ?s' = (- BALL_SPEED, BALL_SPEED) \<and> heads_toward ?s' (paddle1 ?s')"
    if passed: "WIDTH \<le> rect_right (ball (advance t k s))"
  proof -
    have clear: "0 < rect_left (ball (advance t k s))"
      using sized passed by (intro sized_right_not_left ball_sized_advance)
    have centre: "rect_center (ball ?s') = (WIDTH div 2, HEIGHT div 2)"
      using passed by (simp add: upd(2) set_center_center)
    then have "rect_centerx (ball ?s') = 320"
      by (simp add: rect_center_def consts_defs)
    moreover have speed: "ball_speed ?s' = (- BALL_SPEED, BALL_SPEED)"
      using passed clear by (simp add: upd(1))
    ultimately have "heads_toward ?s' (paddle1 ?s')"
      by (simp add: heads_toward_def columns consts_defs)
    with centre speed passed clear show ?thesis
      by (simp add: upd(3,4))
  qed
  from left right show ?thesis by blast
qed

text \<open>
  The claim as first stated has the serve go toward the player who did not
  score. At match point of the idle session the ball passes the left
  boundary: player two scores, and the ball leaves the centre moving right,
  away from paddle one and toward paddle two.
\<close>

theorem serve_direction_counterexample:
  "reachable match_point_state
   \<and> effective 28960 match_point_state
   \<and> rect_left (ball (advance 28960 nokeys match_point_state)) \<le> 0
   \<and> score2 (fst (update 28960 nokeys match_point_state)) = score2 match_point_state + 1
   \<and> score1 (fst (update 28960 nokeys match_point_state)) = score1 match_point_state
   \<and> \<not> heads_toward (fst (update 28960 nokeys match_point_state))
         (paddle1 (fst (update 28960 nokeys match_point_state)))"
proof -
  have "effective 28960 match_point_state
   \<and> rect_left (ball (advance 28960 nokeys match_point_state)) \<le> 0
   \<and> score2 (fst (update 28960 nokeys match_point_state)) = score2 match_point_state + 1
   \<and> score1 (fst (update 28960 nokeys match_point_state)) = score1 match_point_state
   \<and> \<not> heads_toward (fst (update 28960 nokeys match_point_state))
         (paddle1 (fst (update 28960 nokeys match_point_state)))"
    by code_simp
  with reachable_match_point_state show ?thesis by simp
qed

text \<open>
  The amended theorem at the two first score events of the idle session: the
  175th update, on the left, and the 96th, on the right.
\<close>

theorem score_event_effect_witness:
  "reachable before_left_score_state \<and> effective 5600 before_left_score_state
   \<and> rect_left (ball (advance 5600 nokeys before_left_score_state)) \<le> 0
   \<and> score2 (fst (update 5600 nokeys before_left_score_state))
       = score2 before_left_score_state + 1
   \<and> ball_speed (fst (update 5600 nokeys before_left_score_state)) = (BALL_SPEED, BALL_SPEED)
   \<and> rect_center (ball (fst (update 5600 nokeys before_left_score_state)))
       = (WIDTH div 2, HEIGHT div 2)
   \<and> reachable before_right_score_state \<and> effective 3072 before_right_score_state
   \<and> WIDTH \<le> rect_right (ball (advance 3072 nokeys before_right_score_state))
   \<and> score1 (fst (update 3072 nokeys before_right_score_state))
       = score1 before_right_score_state + 1
   \<and> ball_speed (fst (update 3072 nokeys before_right_score_state))
       = (- BALL_SPEED, BALL_SPEED)
   \<and> rect_center (ball (fst (update 3072 nokeys before_right_score_state)))
       = (WIDTH div 2, HEIGHT div 2)"
proof -
  have e1: "effective 5600 before_left_score_state"
    and p1: "rect_left (ball (advance 5600 nokeys before_left_score_state)) \<le> 0"
    by code_simp+
  have e2: "effective 3072 before_right_score_state"
    and p2: "WIDTH \<le> rect_right (ball (advance 3072 nokeys before_right_score_state))"
    by code_simp+
  from score_event_effect [OF reachable_before_left_score_state e1, of nokeys] p1
  have left: "score2 (fst (update 5600 nokeys before_left_score_state))
       = score2 before_left_score_state + 1
   \<and> ball_speed (fst (update 5600 nokeys before_left_score_state)) = (BALL_SPEED, BALL_SPEED)
   \<and> rect_center (ball (fst (update 5600 nokeys before_left_score_state)))
       = (WIDTH div 2, HEIGHT div 2)"
    by blast
  from score_event_effect [OF reachable_before_right_score_state e2, of nokeys] p2
  have right: "score1 (fst (update 3072 nokeys before_right_score_state))
       = score1 before_right_score_state + 1
   \<and> ball_speed (fst (update 3072 nokeys before_right_score_state))
       = (- BALL_SPEED, BALL_SPEED)
   \<and> rect_center (ball (fst (update 3072 nokeys before_right_score_state)))
       = (WIDTH div 2, HEIGHT div 2)"
    by blast
  from reachable_before_left_score_state reachable_before_right_score_state e1 p1 e2 p2 left right
  show ?thesis by blast
qed

section \<open>The deadband of the tracking opponent\<close>

text \<open>
  C8. In an effective call of \<open>update\<close> with the AI enabled: when the ball's
  vertical centre is within 30 units of the centre of paddle two, paddle two
  is left where it was; and when paddle two has moved, the two centres were
  more than 30 units apart and the paddle has moved by exactly one paddle step
  toward the ball's vertical centre (down when the ball was lower, up when it
  was higher). The ball is read where it stands when the call begins.
\<close>

theorem ai_deadband:
  assumes "effective t s" and "ai_active s"
  shows "(\<bar>rect_centery (ball s) - rect_centery (paddle2 s)\<bar> \<le> 30 \<longrightarrow>
            paddle2 (fst (update t k s)) = paddle2 s)
       \<and> (paddle2 (fst (update t k s)) \<noteq> paddle2 s \<longrightarrow>
            30 < \<bar>rect_centery (ball s) - rect_centery (paddle2 s)\<bar>
          \<and> (if rect_centery (paddle2 s) < rect_centery (ball s)
             then paddle2 (fst (update t k s)) = move_y PADDLE_SPEED (paddle2 s)
             else paddle2 (fst (update t k s)) = move_y (- PADDLE_SPEED) (paddle2 s)))"
proof -
  note exact = update_paddle2_ai [OF assms, of k]
  show ?thesis
  proof (cases "rect_centery (ball s) > rect_centery (paddle2 s) + 30
      \<and> rect_bottom (paddle2 s) < HEIGHT")
    case True
    with exact show ?thesis by simp
  next
    case down: False
    show ?thesis
    proof (cases "rect_centery (ball s) < rect_centery (paddle2 s) - 30
        \<and> rect_top (paddle2 s) > 0")
      case True
      with exact down show ?thesis by simp
    next
      case False
      with exact down show ?thesis by simp
    qed
  qed
qed

text \<open>
  The theorem in the idle session: the 7th update, with the ball's centre 29
  units below the paddle's, and the 8th, with the ball 33 units below.
\<close>

theorem ai_deadband_witness:
  "effective 224 in_deadband_state \<and> ai_active in_deadband_state
   \<and> \<bar>rect_centery (ball in_deadband_state) - rect_centery (paddle2 in_deadband_state)\<bar> \<le> 30
   \<and> paddle2 (fst (update 224 nokeys in_deadband_state)) = paddle2 in_deadband_state
   \<and> effective 256 tracking_state \<and> ai_active tracking_state
   \<and> paddle2 (fst (update 256 nokeys tracking_state)) \<noteq> paddle2 tracking_state
   \<and> 30 < \<bar>rect_centery (ball tracking_state) - rect_centery (paddle2 tracking_state)\<bar>
   \<and> paddle2 (fst (update 256 nokeys tracking_state))
       = move_y PADDLE_SPEED (paddle2 tracking_state)"
proof -
  have e1: "effective 224 in_deadband_state" and a1: "ai_active in_deadband_state"
    and d1: "\<bar>rect_centery (ball in_deadband_state)
        - rect_centery (paddle2 in_deadband_state)\<bar> \<le> 30"
    by code_simp+
  have e2: "effective 256 tracking_state" and a2: "ai_active tracking_state"
    and m2: "paddle2 (fst (update 256 nokeys tracking_state)) \<noteq> paddle2 tracking_state"
    and b2: "rect_centery (paddle2 tracking_state) < rect_centery (ball tracking_state)"
    by code_simp+
  from ai_deadband [OF e1 a1, of nokeys] d1
  have still: "paddle2 (fst (update 224 nokeys in_deadband_state)) = paddle2 in_deadband_state"
    by blast
  from ai_deadband [OF e2 a2, of nokeys] m2 b2
  have moved: "30 < \<bar>rect_centery (ball tracking_state) - rect_centery (paddle2 tracking_state)\<bar>
      \<and> paddle2 (fst (update 256 nokeys tracking_state))
          = move_y PADDLE_SPEED (paddle2 tracking_state)"
    by simp
  from e1 a1 d1 still e2 a2 m2 moved show ?thesis by blast
qed

section \<open>The magnitude of the velocity\<close>

text \<open>
  C9. In every reachable state each component of the ball's velocity has
  absolute value exactly \<open>BALL_SPEED\<close>: each is \<open>- BALL_SPEED\<close> or \<open>BALL_SPEED\<close>.
\<close>

theorem ball_speed_components:
  assumes "reachable s"
  shows "\<bar>fst (ball_speed s)\<bar> = BALL_SPEED \<and> \<bar>snd (ball_speed s)\<bar> = BALL_SPEED
       \<and> fst (ball_speed s) \<in> {- BALL_SPEED, BALL_SPEED}
       \<and> snd (ball_speed s) \<in> {- BALL_SPEED, BALL_SPEED}"
proof -
  from assms have "unit_speed (ball_speed s)"
  proof (induction rule: reachable.induct)
    case (reach_init t)
    show ?case by (simp add: unit_speed_def consts_defs)
  next
    case (reach_event u e r)
    from reach_event.IH show ?case by (rule unit_speed_event)
  next
    case (reach_update u t k)
    from reach_update.IH show ?case by (rule unit_speed_update)
  qed
  then show ?thesis
    by (auto simp add: unit_speed_def)
qed

text \<open>The theorem before the 175th update of the idle session: the ball moves up and left.\<close>

theorem ball_speed_components_witness:
  "reachable before_left_score_state
   \<and> ball_speed before_left_score_state = (- BALL_SPEED, - BALL_SPEED)
   \<and> \<bar>fst (ball_speed before_left_score_state)\<bar> = BALL_SPEED
   \<and> \<bar>snd (ball_speed before_left_score_state)\<bar> = BALL_SPEED"
proof -
  have v: "ball_speed before_left_score_state = (- BALL_SPEED, - BALL_SPEED)"
    by code_simp
  from ball_speed_components [OF reachable_before_left_score_state]
    reachable_before_left_score_state v
  show ?thesis by blast
qed

section \<open>One score at a time\<close>

text \<open>
  C10. From a reachable state, one call of \<open>update\<close> changes at most one of the
  two scores, and the one it changes goes up by exactly 1. In particular, when
  the advanced ball has reached the left boundary, the ball as the left
  scoring branch recentres it is short of the right boundary, so the right
  scoring branch does not fire in the same call. Scores never go down but by a
  reset: \<open>update\<close> never lowers one, and the event handler leaves both as they
  are unless the event makes it call \<open>reset\<close> (the key R, or the key Y once
  the match is concluded).
\<close>

theorem one_score_per_update:
  assumes "reachable s"
  shows "((score1 (fst (update t k s)) = score1 s \<and> score2 (fst (update t k s)) = score2 s)
          \<or> (score1 (fst (update t k s)) = score1 s + 1
              \<and> score2 (fst (update t k s)) = score2 s)
          \<or> (score1 (fst (update t k s)) = score1 s
              \<and> score2 (fst (update t k s)) = score2 s + 1))
       \<and> (rect_left (ball (advance t k s)) \<le> 0 \<longrightarrow>
            rect_right (ball (fst (score_left
              (fst (paddle_collision (fst (wall_collision (advance t k s)))))))) < WIDTH)
       \<and> score1 s \<le> score1 (fst (update t k s)) \<and> score2 s \<le> score2 (fst (update t k s))
       \<and> (e \<noteq> KEYDOWN K_r \<and> \<not> (e = KEYDOWN K_y \<and> game_over s) \<longrightarrow>
            score1 (fst (handle_event e (s, r))) = score1 s
          \<and> score2 (fst (handle_event e (s, r))) = score2 s)"
proof -
  have sized: "ball_sized s"
    using assms by (rule reachable_ball_sized)
  have scores: "(score1 (fst (update t k s)) = score1 s \<and> score2 (fst (update t k s)) = score2 s)
      \<or> (score1 (fst (update t k s)) = score1 s + 1 \<and> score2 (fst (update t k s)) = score2 s)
      \<or> (score1 (fst (update t k s)) = score1 s \<and> score2 (fst (update t k s)) = score2 s + 1)"
  proof (cases "effective t s")
    case False
    then show ?thesis by (simp add: update_not_effective)
  next
    case True
    show ?thesis
      by (simp add: update_sized(3,4) [OF sized True])
  qed
  let ?u = "fst (paddle_collision (fst (wall_collision (advance t k s))))"
  have "ball_sized ?u"
    using sized by (intro ball_sized_collisions ball_sized_advance)
  then have recentred: "rect_right (ball (fst (score_left ?u))) < WIDTH"
    if "rect_left (ball (advance t k s)) \<le> 0"
    using that
    by (simp add: score_left_def ball_sized_def set_center_def rect_right_def half_def
        consts_defs)
  have events: "score1 (fst (handle_event e (s, r))) = score1 s
      \<and> score2 (fst (handle_event e (s, r))) = score2 s"
    if "e \<noteq> KEYDOWN K_r" and "\<not> (e = KEYDOWN K_y \<and> game_over s)"
    using that by (rule handle_event_scores)
  from scores recentred events show ?thesis by auto
qed

text \<open>
  The theorem at the first score on the left of the idle session (the 175th
  update), with the key 1 as the event.
\<close>

theorem one_score_per_update_witness:
  "reachable before_left_score_state
   \<and> rect_left (ball (advance 5600 nokeys before_left_score_state)) \<le> 0
   \<and> score1 (fst (update 5600 nokeys before_left_score_state)) = score1 before_left_score_state
   \<and> score2 (fst (update 5600 nokeys before_left_score_state))
       = score2 before_left_score_state + 1
   \<and> rect_right (ball (fst (score_left (fst (paddle_collision (fst (wall_collision
        (advance 5600 nokeys before_left_score_state)))))))) < WIDTH
   \<and> KEYDOWN K_1 \<noteq> KEYDOWN K_r \<and> KEYDOWN K_1 \<noteq> KEYDOWN K_y
   \<and> score1 (fst (handle_event (KEYDOWN K_1) (before_left_score_state, True)))
       = score1 before_left_score_state
   \<and> score2 (fst (handle_event (KEYDOWN K_1) (before_left_score_state, True)))
       = score2 before_left_score_state"
proof -
  have p: "rect_left (ball (advance 5600 nokeys before_left_score_state)) \<le> 0"
    and two: "score2 (fst (update 5600 nokeys before_left_score_state))
       = score2 before_left_score_state + 1"
    by code_simp+
  have ev: "KEYDOWN K_1 \<noteq> KEYDOWN K_r \<and> KEYDOWN K_1 \<noteq> KEYDOWN K_y"
    by simp
  from one_score_per_update [OF reachable_before_left_score_state,
      of 5600 nokeys "KEYDOWN K_1" True] p two ev
  have "score1 (fst (update 5600 nokeys before_left_score_state)) = score1 before_left_score_state
   \<and> rect_right (ball (fst (score_left (fst (paddle_collision (fst (wall_collision
        (advance 5600 nokeys before_left_score_state)))))))) < WIDTH
   \<and> score1 (fst (handle_event (KEYDOWN K_1) (before_left_score_state, True)))
       = score1 before_left_score_state
   \<and> score2 (fst (handle_event (KEYDOWN K_1) (before_left_score_state, True)))
       = score2 before_left_score_state"
    by auto
  with reachable_before_left_score_state p two ev show ?thesis by blast
qed


end
